theory Spec2Isabelle
  imports Complex_Main "HOL-Library.Multiset"
begin

section \<open>The settlement engine of script.js\<close>

text \<open>
  The development embeds \<^verbatim>\<open>calculateAdvanced\<close> of \<^verbatim>\<open>script.js\<close>: the filter that
  builds the expense array, the aggregation into \<^verbatim>\<open>totals\<close>, the rounded net balances
  and the greedy two-cursor matching loop. What the function reads from the page is
  its input here: the participant names (\<^verbatim>\<open>getParticipants()\<close>) and, for every expense
  row, the trimmed description, the decimal value of the amount field, the selected
  payer and the checked sharers. What it stores in \<^verbatim>\<open>lastCalculation\<close> is its result;
  the two early returns and a failing property access are its errors.

  Numbers. A finite JavaScript Number is a rational number (\<^typ>\<open>rat\<close>), and every
  function takes the arithmetic as its first argument: with \<open>Double\<close>, the result of
  every operation of the source that rounds (\<^verbatim>\<open>parseFloat\<close>, \<^verbatim>\<open>+\<close>, \<^verbatim>\<open>-\<close>, \<^verbatim>\<open>/\<close>,
  a decimal literal) is rounded to the nearest IEEE-754 double, ties to even, as
  JavaScript does; with \<open>Exact\<close> nothing is rounded, which is arithmetic in exact
  decimals. Negation, \<^verbatim>\<open>Math.min\<close> and comparisons are exact in both. \<^verbatim>\<open>NaN\<close>, which
  \<^verbatim>\<open>parseFloat\<close> yields for an empty amount field, is \<^term>\<open>None\<close>; infinities are
  outside the model (a value beyond the largest double is not turned into one).

  Objects. The object \<^verbatim>\<open>totals\<close> is a finite map from names to balances; reading a
  property of \<^verbatim>\<open>totals[name]\<close> for a name that was never stored is the
  \<^verbatim>\<open>TypeError\<close> of the source. Names are plain keys: the properties that a JavaScript
  object inherits from its prototype are not modelled.
\<close>

subsection \<open>Numbers\<close>

datatype arith = Exact | Double

text \<open>The number of binary digits of a positive integer.\<close>

function bitlen :: "int \<Rightarrow> int" where
  "bitlen n = (if n \<le> 0 then 0 else 1 + bitlen (n div 2))"
  by pat_completeness auto
termination
  by (relation "measure nat") auto

declare bitlen.simps [simp del]

definition pow2 :: "int \<Rightarrow> rat" where
  "pow2 k = (if 0 \<le> k then 2 ^ nat k else 1 / 2 ^ nat (- k))"

text \<open>The binary exponent of a positive rational: the \<open>e\<close> with \<open>2^e \<le> x < 2^(e+1)\<close>.\<close>

definition ilog2 :: "rat \<Rightarrow> int" where
  "ilog2 x =
     (let (p, q) = quotient_of x;
          k = bitlen p - bitlen q
      in if pow2 k \<le> x then k else k - 1)"

definition round_half_even :: "rat \<Rightarrow> int" where
  "round_half_even x =
     (let lo = \<lfloor>x\<rfloor>; r = x - of_int lo
      in if r < 1 / 2 then lo
         else if 1 / 2 < r then lo + 1
         else if even lo then lo else lo + 1)"

text \<open>
  The nearest double: 53 significant binary digits, so a value with binary exponent
  \<open>e\<close> is a multiple of \<open>2^(e - 52)\<close>; below \<open>2^(-1022)\<close> the spacing stays
  \<open>2^(-1074)\<close> (subnormal numbers).
\<close>

definition to_double :: "rat \<Rightarrow> rat" where
  "to_double x =
     (if x = 0 then 0
      else let e = max (ilog2 \<bar>x\<bar>) (- 1022);
               q = pow2 (e - 52)
           in sgn x * of_int (round_half_even (\<bar>x\<bar> / q)) * q)"

fun rnd :: "arith \<Rightarrow> rat \<Rightarrow> rat" where
  "rnd Exact x = x"
| "rnd Double x = to_double x"

subsection \<open>Data\<close>

record item =
  item_desc :: string
  item_amount :: "rat option"
  item_payer :: string
  item_sharedBy :: "string list"

record expense =
  description :: string
  amount :: rat
  payer :: string
  sharedBy :: "string list"

record balance =
  paid :: rat
  owed :: rat

record net_balance =
  name :: string
  net :: rat

record party =
  party_name :: string
  party_amount :: rat

record transfer =
  t_from :: string
  t_to :: string
  t_amount :: rat

record calculation =
  participants :: "string list"
  expenses :: "expense list"
  totals :: "net_balance list"
  settlement :: "transfer list"
  totalSpent :: rat

datatype error = NoParticipants | NoValidExpenses | TypeError

type_synonym totals_map = "string \<rightharpoonup> balance"

subsection \<open>Rounding to two decimals: \<^verbatim>\<open>x.toFixed(2)\<close>\<close>

text \<open>
  \<^verbatim>\<open>Number.prototype.toFixed\<close> treats a negative \<open>x\<close> by its absolute value and a
  leading minus sign, and then takes the integer \<open>n\<close> for which \<open>n / 100 - x\<close> is as
  close to zero as possible, the larger one when there are two. It works on the exact
  value of \<open>x\<close>; \<open>toFixed2\<close> is the value of the decimal string it returns, which
  \<^verbatim>\<open>parseFloat\<close> then reads back (\<open>rnd\<close>).
\<close>

definition toFixed2 :: "rat \<Rightarrow> rat" where
  "toFixed2 x =
     (let a = \<bar>x\<bar> * 100;
          lo = \<lfloor>a\<rfloor>;
          n = (if a - of_int lo < 1 / 2 then lo else lo + 1)
      in if x < 0 then - (of_int n / 100) else of_int n / 100)"


subsection \<open>Building the expense array\<close>

text \<open>
  \<^verbatim>\<open>const amountVal = parseFloat(...)\<close>, then
  \<^verbatim>\<open>if (!isNaN(amountVal) && amountVal > 0 && payer && sharedBy.length > 0)\<close>
  keeps an item; a blank description becomes \<^verbatim>\<open>'Expense'\<close>.
\<close>

fun collect_expenses :: "arith \<Rightarrow> item list \<Rightarrow> expense list" where
  "collect_expenses m [] = []"
| "collect_expenses m (it # its) =
     (case item_amount it of
        None \<Rightarrow> collect_expenses m its
      | Some v \<Rightarrow>
          if rnd m v > 0 \<and> item_payer it \<noteq> [] \<and> length (item_sharedBy it) > 0
          then \<lparr>description = (if item_desc it = [] then ''Expense'' else item_desc it),
                amount = rnd m v, payer = item_payer it, sharedBy = item_sharedBy it\<rparr>
               # collect_expenses m its
          else collect_expenses m its)"

text \<open>\<^verbatim>\<open>totalSpent += amountVal\<close> for every expense that is kept, from 0.\<close>

fun total_spent :: "arith \<Rightarrow> rat \<Rightarrow> expense list \<Rightarrow> rat" where
  "total_spent m acc [] = acc"
| "total_spent m acc (ex # exps) = total_spent m (rnd m (acc + amount ex)) exps"

subsection \<open>Aggregation\<close>

text \<open>\<^verbatim>\<open>participants.forEach((name) => { totals[name] = { paid: 0, owed: 0 }; })\<close>\<close>

fun init_totals :: "string list \<Rightarrow> totals_map \<Rightarrow> totals_map" where
  "init_totals [] tot = tot"
| "init_totals (nm # nms) tot = init_totals nms (tot(nm \<mapsto> \<lparr>paid = 0, owed = 0\<rparr>))"

text \<open>\<^verbatim>\<open>exp.sharedBy.forEach((name) => { totals[name].owed += share; })\<close>\<close>

fun add_shares :: "arith \<Rightarrow> rat \<Rightarrow> string list \<Rightarrow> totals_map \<Rightarrow> error + totals_map" where
  "add_shares m share [] tot = Inr tot"
| "add_shares m share (nm # nms) tot =
     (case tot nm of
        None \<Rightarrow> Inl TypeError
      | Some b \<Rightarrow> add_shares m share nms (tot(nm \<mapsto> b\<lparr>owed := rnd m (owed b + share)\<rparr>)))"

text \<open>The body of \<^verbatim>\<open>expenses.forEach((exp) => ...)\<close> for one expense.\<close>

definition add_expense :: "arith \<Rightarrow> totals_map \<Rightarrow> expense \<Rightarrow> error + totals_map" where
  "add_expense m tot ex =
     (let share = rnd m (amount ex / of_nat (length (sharedBy ex)))
      in case tot (payer ex) of
           None \<Rightarrow> Inl TypeError
         | Some b \<Rightarrow>
             add_shares m share (sharedBy ex)
               (tot(payer ex \<mapsto> b\<lparr>paid := rnd m (paid b + amount ex)\<rparr>)))"

fun sum_expenses :: "arith \<Rightarrow> totals_map \<Rightarrow> expense list \<Rightarrow> error + totals_map" where
  "sum_expenses m tot [] = Inr tot"
| "sum_expenses m tot (ex # exps) =
     (case add_expense m tot ex of
        Inl e \<Rightarrow> Inl e
      | Inr tot' \<Rightarrow> sum_expenses m tot' exps)"

subsection \<open>Net balances\<close>

text \<open>
  \<^verbatim>\<open>participants.map((name) => { const net = totals[name].paid - totals[name].owed;
  return { name, net: parseFloat(net.toFixed(2)) }; })\<close>
\<close>

fun calc_nets :: "arith \<Rightarrow> totals_map \<Rightarrow> string list \<Rightarrow> error + net_balance list" where
  "calc_nets m tot [] = Inr []"
| "calc_nets m tot (nm # nms) =
     (case tot nm of
        None \<Rightarrow> Inl TypeError
      | Some b \<Rightarrow>
          (case calc_nets m tot nms of
             Inl e \<Rightarrow> Inl e
           | Inr ns \<Rightarrow>
               Inr (\<lparr>name = nm, net = rnd m (toFixed2 (rnd m (paid b - owed b)))\<rparr> # ns)))"

subsection \<open>Debtors, creditors and the matching loop\<close>

text \<open>The literal \<^verbatim>\<open>0.01\<close> of the source.\<close>

definition cent :: "arith \<Rightarrow> rat" where
  "cent m = rnd m (1 / 100)"

definition debtors_of :: "arith \<Rightarrow> net_balance list \<Rightarrow> party list" where
  "debtors_of m nets =
     map (\<lambda>x. \<lparr>party_name = name x, party_amount = - net x\<rparr>)
       (filter (\<lambda>x. net x < - cent m) nets)"

definition creditors_of :: "arith \<Rightarrow> net_balance list \<Rightarrow> party list" where
  "creditors_of m nets =
     map (\<lambda>x. \<lparr>party_name = name x, party_amount = net x\<rparr>)
       (filter (\<lambda>x. net x > cent m) nets)"

text \<open>
  The \<^verbatim>\<open>while\<close> loop, with the cursors \<open>i\<close> and \<open>j\<close>, the two arrays whose elements it
  updates in place, and the settlement array it appends to. It terminates because
  the smaller of the two amounts is subtracted from itself, which gives 0 in either
  arithmetic, so that its cursor moves.
\<close>

function settle_loop ::
  "arith \<Rightarrow> nat \<Rightarrow> nat \<Rightarrow> party list \<Rightarrow> party list \<Rightarrow> transfer list \<Rightarrow> transfer list" where
  "settle_loop m i j debtors creditors settlement_acc =
     (if i < length debtors \<and> j < length creditors then
        settle_loop m
          (if rnd m (party_amount (debtors ! i)
                - min (party_amount (debtors ! i)) (party_amount (creditors ! j))) < cent m
           then i + 1 else i)
          (if rnd m (party_amount (creditors ! j)
                - min (party_amount (debtors ! i)) (party_amount (creditors ! j))) < cent m
           then j + 1 else j)
          (debtors[i := (debtors ! i)\<lparr>party_amount :=
             rnd m (party_amount (debtors ! i)
               - min (party_amount (debtors ! i)) (party_amount (creditors ! j)))\<rparr>])
          (creditors[j := (creditors ! j)\<lparr>party_amount :=
             rnd m (party_amount (creditors ! j)
               - min (party_amount (debtors ! i)) (party_amount (creditors ! j)))\<rparr>])
          (settlement_acc @
             [\<lparr>t_from = party_name (debtors ! i), t_to = party_name (creditors ! j),
               t_amount = min (party_amount (debtors ! i)) (party_amount (creditors ! j))\<rparr>])
      else settlement_acc)"
  by pat_completeness auto
termination
proof (relation "measure (\<lambda>(m, i, j, debtors, creditors, acc).
                   (length debtors - i) + (length creditors - j))")
  show "wf (measure (\<lambda>(m, i, j, debtors, creditors, acc).
                   (length debtors - i) + (length creditors - j)))"
    by simp
next
  fix m :: arith and i j :: nat and debtors creditors :: "party list"
    and settlement_acc :: "transfer list"
  assume run: "i < length debtors \<and> j < length creditors"
  let ?d = "party_amount (debtors ! i)" and ?c = "party_amount (creditors ! j)"
  have zero: "rnd m 0 = 0" by (cases m) (simp_all add: to_double_def)
  have "0 < cent Double" unfolding cent_def by code_simp
  then have pos: "0 < cent m" by (cases m) (simp_all add: cent_def)
  have "?d - min ?d ?c = 0 \<or> ?c - min ?d ?c = 0"
    by (cases "?d \<le> ?c") (simp_all add: min_def)
  with zero pos have "rnd m (?d - min ?d ?c) < cent m \<or> rnd m (?c - min ?d ?c) < cent m"
    by (metis (no_types))
  with run show
    "((m, if rnd m (?d - min ?d ?c) < cent m then i + 1 else i,
       if rnd m (?c - min ?d ?c) < cent m then j + 1 else j,
       debtors[i := (debtors ! i)\<lparr>party_amount := rnd m (?d - min ?d ?c)\<rparr>],
       creditors[j := (creditors ! j)\<lparr>party_amount := rnd m (?c - min ?d ?c)\<rparr>],
       settlement_acc @
         [\<lparr>t_from = party_name (debtors ! i), t_to = party_name (creditors ! j),
           t_amount = min ?d ?c\<rparr>]),
      (m, i, j, debtors, creditors, settlement_acc))
     \<in> measure (\<lambda>(m, i, j, debtors, creditors, acc).
                   (length debtors - i) + (length creditors - j))"
    by auto
qed

declare settle_loop.simps [simp del]

subsection \<open>The whole operation\<close>

definition calculateAdvanced :: "arith \<Rightarrow> string list \<Rightarrow> item list \<Rightarrow> error + calculation" where
  "calculateAdvanced m ps items =
     (if length ps = 0 then Inl NoParticipants
      else let exps = collect_expenses m items in
        if length exps = 0 then Inl NoValidExpenses
        else
          (case sum_expenses m (init_totals ps Map.empty) exps of
             Inl e \<Rightarrow> Inl e
           | Inr tot \<Rightarrow>
               (case calc_nets m tot ps of
                  Inl e \<Rightarrow> Inl e
                | Inr nets \<Rightarrow>
                    Inr \<lparr>participants = ps, expenses = exps, totals = nets,
                         settlement =
                           settle_loop m 0 0 (debtors_of m nets) (creditors_of m nets) [],
                         totalSpent = rnd m (toFixed2 (total_spent m 0 exps))\<rparr>)))"

subsection \<open>Auxiliary definitions for the statements\<close>

text \<open>
  The net of a name in \<^verbatim>\<open>totals\<close> before it is rounded to two decimals:
  \<^verbatim>\<open>totals[name].paid - totals[name].owed\<close>.
\<close>

definition raw_net :: "arith \<Rightarrow> totals_map \<Rightarrow> string \<Rightarrow> rat" where
  "raw_net m tot nm = (case tot nm of None \<Rightarrow> 0 | Some b \<Rightarrow> rnd m (paid b - owed b))"


text \<open>
  The loop seen from the cursors: the debtors from \<open>i\<close> on and the creditors from \<open>j\<close>
  on. \<open>keep_party\<close> is the cursor test: a party whose residual is below 0.01 is left
  behind, any other stays under the cursor with its residual.
\<close>

definition keep_party :: "arith \<Rightarrow> party \<Rightarrow> rat \<Rightarrow> party list \<Rightarrow> party list" where
  "keep_party m p s ps =
     (if rnd m (party_amount p - s) < cent m then ps
      else p\<lparr>party_amount := rnd m (party_amount p - s)\<rparr> # ps)"

function settle_rec :: "arith \<Rightarrow> party list \<Rightarrow> party list \<Rightarrow> transfer list" where
  "settle_rec m [] cs = []"
| "settle_rec m (d # ds) [] = []"
| "settle_rec m (d # ds) (c # cs) =
     \<lparr>t_from = party_name d, t_to = party_name c,
      t_amount = min (party_amount d) (party_amount c)\<rparr>
     # settle_rec m (keep_party m d (min (party_amount d) (party_amount c)) ds)
         (keep_party m c (min (party_amount d) (party_amount c)) cs)"
  by pat_completeness auto
termination
proof (relation "measure (\<lambda>(m, ds, cs). length ds + length cs)")
  show "wf (measure (\<lambda>(m, ds, cs). length ds + length cs))" by simp
next
  fix m :: arith and d c :: party and ds cs :: "party list"
  have zero: "rnd m 0 = 0" by (cases m) (simp_all add: to_double_def)
  have "0 < cent Double" unfolding cent_def by code_simp
  then have pos: "0 < cent m" by (cases m) (simp_all add: cent_def)
  have "length (keep_party m d (min (party_amount d) (party_amount c)) ds)
          + length (keep_party m c (min (party_amount d) (party_amount c)) cs)
        \<le> Suc (length ds + length cs)"
    using zero pos
    by (cases "party_amount d \<le> party_amount c") (simp_all add: keep_party_def min_def)
  then show "((m, keep_party m d (min (party_amount d) (party_amount c)) ds,
          keep_party m c (min (party_amount d) (party_amount c)) cs), m, d # ds, c # cs)
        \<in> measure (\<lambda>(m, ds, cs). length ds + length cs)"
    by simp
qed








text \<open>The nets of the result, name by name.\<close>

definition nets_of :: "arith \<Rightarrow> string list \<Rightarrow> item list \<Rightarrow> (string \<times> rat) list option" where
  "nets_of m ps items =
     (case calculateAdvanced m ps items of
        Inl e \<Rightarrow> None
      | Inr c \<Rightarrow> Some (map (\<lambda>x. (name x, net x)) (totals c)))"

text \<open>An entry that the filter drops, in the words of the specification.\<close>

definition malformed :: "arith \<Rightarrow> item \<Rightarrow> bool" where
  "malformed m it =
     ((case item_amount it of None \<Rightarrow> True | Some v \<Rightarrow> rnd m v \<le> 0)
      \<or> item_payer it = [] \<or> item_sharedBy it = [])"

section \<open>Properties\<close>

subsection \<open>Rounding\<close>







subsection \<open>The two arithmetics\<close>

lemma rnd_zero [simp]: "rnd m 0 = 0"
  by (cases m) (simp_all add: to_double_def)

lemma cent_Exact [simp]: "cent Exact = 1 / 100"
  by (simp add: cent_def)

lemma cent_Double: "cent Double = 5764607523034235 / 576460752303423488"
  unfolding cent_def by code_simp

lemma cent_pos: "0 < cent m"
  by (cases m) (simp_all add: cent_Double)

subsection \<open>Roundings that the examples use\<close>

text \<open>
  The examples below are run in double arithmetic by rewriting: every rounding that
  occurs in them is evaluated here once, from the definition of \<open>to_double\<close> (and
  of \<open>toFixed2\<close>).
\<close>

lemma dbl_1: "to_double (- 50) = - 50"
  by code_simp

lemma dbl_2: "to_double (- (2573485501354569 / 18014398509481984)) = - (2573485501354569 / 18014398509481984)"
  by code_simp

lemma dbl_3: "to_double (- (7 / 50)) = - (1261007895663739 / 9007199254740992)"
  by code_simp

lemma dbl_4: "to_double (- (1 / 25)) = - (5764607523034235 / 144115188075855872)"
  by code_simp

lemma dbl_5: "to_double (- (1261007895663739 / 36028797018963968)) = - (1261007895663739 / 36028797018963968)"
  by code_simp

lemma dbl_6: "to_double (- (5044031582654955 / 144115188075855872)) = - (5044031582654955 / 144115188075855872)"
  by code_simp

lemma dbl_7: "to_double (- (3 / 100)) = - (1080863910568919 / 36028797018963968)"
  by code_simp

lemma dbl_8: "to_double (5764607523034235 / 1152921504606846976) = 5764607523034235 / 1152921504606846976"
  by code_simp

lemma dbl_9: "to_double (1 / 100) = 5764607523034235 / 576460752303423488"
  by code_simp

lemma dbl_10: "to_double (5764607523034235 / 576460752303423488) = 5764607523034235 / 576460752303423488"
  by code_simp

lemma dbl_11: "to_double (1441151880758559 / 144115188075855872) = 1441151880758559 / 144115188075855872"
  by code_simp

lemma dbl_12: "to_double (17293822569102705 / 1152921504606846976) = 1080863910568919 / 72057594037927936"
  by code_simp

lemma dbl_13: "to_double (180143985094819 / 9007199254740992) = 180143985094819 / 9007199254740992"
  by code_simp

lemma dbl_14: "to_double (1 / 50) = 5764607523034235 / 288230376151711744"
  by code_simp

lemma dbl_15: "to_double (5764607523034235 / 288230376151711744) = 5764607523034235 / 288230376151711744"
  by code_simp

lemma dbl_16: "to_double (3 / 100) = 1080863910568919 / 36028797018963968"
  by code_simp

lemma dbl_17: "to_double (17293822569102705 / 576460752303423488) = 1080863910568919 / 36028797018963968"
  by code_simp

lemma dbl_18: "to_double (40352252661239643 / 1152921504606846976) = 5044031582654955 / 144115188075855872"
  by code_simp

lemma dbl_19: "to_double (10088063165309911 / 288230376151711744) = 1261007895663739 / 36028797018963968"
  by code_simp

lemma dbl_20: "to_double (40352252661239645 / 1152921504606846976) = 1261007895663739 / 36028797018963968"
  by code_simp

lemma dbl_21: "to_double (23058430092136939 / 576460752303423488) = 5764607523034235 / 144115188075855872"
  by code_simp

lemma dbl_22: "to_double (1 / 25) = 5764607523034235 / 144115188075855872"
  by code_simp

lemma dbl_23: "to_double (5764607523034235 / 144115188075855872) = 5764607523034235 / 144115188075855872"
  by code_simp

lemma dbl_24: "to_double (7 / 50) = 1261007895663739 / 9007199254740992"
  by code_simp

lemma dbl_25: "to_double (2573485501354569 / 18014398509481984) = 2573485501354569 / 18014398509481984"
  by code_simp

lemma dbl_26: "to_double (1 / 7) = 2573485501354569 / 18014398509481984"
  by code_simp

lemma dbl_27: "to_double (720575940379279 / 4503599627370496) = 720575940379279 / 4503599627370496"
  by code_simp

lemma dbl_28: "to_double (2702159776422297 / 9007199254740992) = 2702159776422297 / 9007199254740992"
  by code_simp

lemma dbl_29: "to_double (990791918021509 / 2251799813685248) = 990791918021509 / 2251799813685248"
  by code_simp

lemma dbl_30: "to_double (5224175567749775 / 9007199254740992) = 5224175567749775 / 9007199254740992"
  by code_simp

lemma dbl_31: "to_double (3242591731706757 / 4503599627370496) = 3242591731706757 / 4503599627370496"
  by code_simp

lemma dbl_32: "to_double (7746191359077253 / 9007199254740992) = 7746191359077253 / 9007199254740992"
  by code_simp

lemma dbl_33: "to_double (1) = 1"
  by code_simp

lemma dbl_34: "to_double (50) = 50"
  by code_simp

lemma dbl_35: "to_double (100) = 100"
  by code_simp

lemma fix_1: "toFixed2 (- 50) = - 50"
  by code_simp

lemma fix_2: "toFixed2 (- (2573485501354569 / 18014398509481984)) = - (7 / 50)"
  by code_simp

lemma fix_3: "toFixed2 (- (1261007895663739 / 36028797018963968)) = - (1 / 25)"
  by code_simp

lemma fix_4: "toFixed2 (- (5044031582654955 / 144115188075855872)) = - (3 / 100)"
  by code_simp

lemma fix_5: "toFixed2 (1261007895663739 / 36028797018963968) = 1 / 25"
  by code_simp

lemma fix_6: "toFixed2 (5764607523034235 / 144115188075855872) = 1 / 25"
  by code_simp

lemma fix_7: "toFixed2 (1) = 1"
  by code_simp

lemma fix_8: "toFixed2 (50) = 50"
  by code_simp

lemma fix_9: "toFixed2 (100) = 100"
  by code_simp

lemmas example_roundings = dbl_1 dbl_2 dbl_3 dbl_4 dbl_5 dbl_6 dbl_7 dbl_8 dbl_9 dbl_10
  dbl_11 dbl_12 dbl_13 dbl_14 dbl_15 dbl_16 dbl_17 dbl_18 dbl_19 dbl_20 dbl_21 dbl_22
  dbl_23 dbl_24 dbl_25 dbl_26 dbl_27 dbl_28 dbl_29 dbl_30 dbl_31 dbl_32 dbl_33 dbl_34
  dbl_35 fix_1 fix_2 fix_3 fix_4 fix_5 fix_6 fix_7 fix_8 fix_9

lemmas evaluate = calculateAdvanced_def Let_def add_expense_def debtors_of_def creditors_of_def
  cent_def settle_loop.simps example_roundings

subsection \<open>Aggregation: when the lookups succeed\<close>

lemma init_totals_apply:
  "init_totals ps tot nm = (if nm \<in> set ps then Some \<lparr>paid = 0, owed = 0\<rparr> else tot nm)"
  by (induction ps arbitrary: tot) auto

lemma dom_init_totals: "dom (init_totals ps Map.empty) = set ps"
  by (auto simp: init_totals_apply dom_def)

lemma add_shares_Inr:
  "set nms \<subseteq> dom tot \<Longrightarrow> \<exists>tot'. add_shares m s nms tot = Inr tot' \<and> dom tot' = dom tot"
proof (induction nms arbitrary: tot)
  case Nil
  then show ?case by simp
next
  case (Cons nm nms)
  then obtain b where b: "tot nm = Some b" by auto
  let ?t = "tot(nm \<mapsto> b\<lparr>owed := rnd m (owed b + s)\<rparr>)"
  have d: "dom ?t = dom tot" using b by auto
  with Cons.prems have "set nms \<subseteq> dom ?t" by simp
  from Cons.IH[OF this] obtain tot' where
    t': "add_shares m s nms ?t = Inr tot'" "dom tot' = dom ?t" by blast
  have "add_shares m s (nm # nms) tot = add_shares m s nms ?t" using b by simp
  with t' d show ?case by metis
qed

lemma add_shares_Inl:
  "\<not> set nms \<subseteq> dom tot \<Longrightarrow> add_shares m s nms tot = Inl TypeError"
proof (induction nms arbitrary: tot)
  case Nil
  then show ?case by simp
next
  case (Cons nm nms)
  show ?case
  proof (cases "tot nm")
    case None
    then show ?thesis by simp
  next
    case (Some b)
    let ?t = "tot(nm \<mapsto> b\<lparr>owed := rnd m (owed b + s)\<rparr>)"
    have d: "dom ?t = dom tot" using Some by auto
    with Cons.prems Some have "\<not> set nms \<subseteq> dom ?t" by auto
    from Cons.IH[OF this] have "add_shares m s nms ?t = Inl TypeError" .
    moreover have "add_shares m s (nm # nms) tot = add_shares m s nms ?t" using Some by simp
    ultimately show ?thesis by metis
  qed
qed

lemma add_expense_Inr:
  "payer ex \<in> dom tot \<Longrightarrow> set (sharedBy ex) \<subseteq> dom tot \<Longrightarrow>
     \<exists>tot'. add_expense m tot ex = Inr tot' \<and> dom tot' = dom tot"
proof -
  assume p: "payer ex \<in> dom tot" and s: "set (sharedBy ex) \<subseteq> dom tot"
  from p obtain b where b: "tot (payer ex) = Some b" by auto
  let ?t = "tot(payer ex \<mapsto> b\<lparr>paid := rnd m (paid b + amount ex)\<rparr>)"
  have d: "dom ?t = dom tot" using b by auto
  with s have "set (sharedBy ex) \<subseteq> dom ?t" by simp
  from add_shares_Inr[OF this] obtain tot' where
    t': "add_shares m (rnd m (amount ex / of_nat (length (sharedBy ex)))) (sharedBy ex) ?t = Inr tot'"
      "dom tot' = dom ?t" by blast
  have "add_expense m tot ex
          = add_shares m (rnd m (amount ex / of_nat (length (sharedBy ex)))) (sharedBy ex) ?t"
    using b by (simp add: add_expense_def Let_def)
  with t' d show ?thesis by metis
qed

lemma add_expense_Inl:
  "\<not> (payer ex \<in> dom tot \<and> set (sharedBy ex) \<subseteq> dom tot) \<Longrightarrow>
     add_expense m tot ex = Inl TypeError"
proof (cases "tot (payer ex)")
  case None
  then show ?thesis by (simp add: add_expense_def Let_def)
next
  case (Some b)
  assume n: "\<not> (payer ex \<in> dom tot \<and> set (sharedBy ex) \<subseteq> dom tot)"
  let ?t = "tot(payer ex \<mapsto> b\<lparr>paid := rnd m (paid b + amount ex)\<rparr>)"
  have d: "dom ?t = dom tot" using Some by auto
  with n Some have "\<not> set (sharedBy ex) \<subseteq> dom ?t" by auto
  from add_shares_Inl[OF this]
  have "add_shares m (rnd m (amount ex / of_nat (length (sharedBy ex)))) (sharedBy ex) ?t = Inl TypeError" .
  moreover have "add_expense m tot ex
          = add_shares m (rnd m (amount ex / of_nat (length (sharedBy ex)))) (sharedBy ex) ?t"
    using Some by (simp add: add_expense_def Let_def)
  ultimately show ?thesis by metis
qed

lemma sum_expenses_Inr:
  "\<forall>e \<in> set exps. payer e \<in> dom tot \<and> set (sharedBy e) \<subseteq> dom tot \<Longrightarrow>
     \<exists>tot'. sum_expenses m tot exps = Inr tot' \<and> dom tot' = dom tot"
proof (induction exps arbitrary: tot)
  case Nil
  then show ?case by simp
next
  case (Cons e exps)
  then obtain t where t: "add_expense m tot e = Inr t" "dom t = dom tot"
    using add_expense_Inr[of e tot m] by auto
  with Cons.prems have "\<forall>e \<in> set exps. payer e \<in> dom t \<and> set (sharedBy e) \<subseteq> dom t"
    by simp
  from Cons.IH[OF this] t show ?case by simp
qed

lemma sum_expenses_Inl:
  "\<not> (\<forall>e \<in> set exps. payer e \<in> dom tot \<and> set (sharedBy e) \<subseteq> dom tot) \<Longrightarrow>
     sum_expenses m tot exps = Inl TypeError"
proof (induction exps arbitrary: tot)
  case Nil
  then show ?case by simp
next
  case (Cons e exps)
  show ?case
  proof (cases "payer e \<in> dom tot \<and> set (sharedBy e) \<subseteq> dom tot")
    case False
    from add_expense_Inl[OF this] show ?thesis by simp
  next
    case True
    then obtain t where t: "add_expense m tot e = Inr t" "dom t = dom tot"
      using add_expense_Inr[of e tot m] by auto
    with Cons.prems True
    have "\<not> (\<forall>e \<in> set exps. payer e \<in> dom t \<and> set (sharedBy e) \<subseteq> dom t)"
      by simp
    from Cons.IH[OF this] t show ?thesis by simp
  qed
qed

lemma calc_nets_Inr:
  "set ps \<subseteq> dom tot \<Longrightarrow>
     calc_nets m tot ps = Inr (map (\<lambda>nm. \<lparr>name = nm, net = rnd m (toFixed2 (raw_net m tot nm))\<rparr>) ps)"
  by (induction ps) (auto simp: raw_net_def)


lemma calc_nets_dom:
  "calc_nets m tot ps = Inr ns \<Longrightarrow> set ps \<subseteq> dom tot"
  by (induction ps arbitrary: ns) (auto split: option.splits sum.splits)

subsection \<open>The matching loop\<close>


lemma drop_update_here:
  "i < length xs \<Longrightarrow> drop i (xs[i := v]) = v # drop (Suc i) xs"
  by (simp add: drop_update_swap Cons_nth_drop_Suc[symmetric] upd_conv_take_nth_drop)

lemma settle_loop_rec:
  "settle_loop m i j ds cs acc = acc @ settle_rec m (drop i ds) (drop j cs)"
proof (induction m i j ds cs acc rule: settle_loop.induct)
  case (1 m i j ds cs acc)
  show ?case
  proof (cases "i < length ds \<and> j < length cs")
    case False
    then have "drop i ds = [] \<or> drop j cs = []" by auto
    then have "settle_rec m (drop i ds) (drop j cs) = []"
      by (cases "drop i ds") auto
    moreover have "settle_loop m i j ds cs acc = acc"
      using False by (subst settle_loop.simps) (simp only: if_False)
    ultimately show ?thesis by simp
  next
    case True
    then have di: "drop i ds = ds ! i # drop (Suc i) ds"
      and dj: "drop j cs = cs ! j # drop (Suc j) cs"
      by (simp_all add: Cons_nth_drop_Suc)
    show ?thesis
      apply (subst settle_loop.simps)
      apply (subst "1.IH"[OF True])
      using True
      apply (simp add: di dj drop_update_here keep_party_def)
      done
  qed
qed

lemma keep_party_names:
  "party_name ` set (keep_party m p s ps) \<subseteq> insert (party_name p) (party_name ` set ps)"
  by (auto simp: keep_party_def)

lemma settle_rec_names:
  "t \<in> set (settle_rec m ds cs) \<Longrightarrow>
     t_from t \<in> party_name ` set ds \<and> t_to t \<in> party_name ` set cs"
proof (induction m ds cs rule: settle_rec.induct)
  case (3 m d ds c cs)
  show ?case
  proof (cases "t \<in> set (settle_rec m (keep_party m d (min (party_amount d) (party_amount c)) ds)
         (keep_party m c (min (party_amount d) (party_amount c)) cs))")
    case True
    from "3.IH"[OF True]
      keep_party_names[of m d "min (party_amount d) (party_amount c)" ds]
      keep_party_names[of m c "min (party_amount d) (party_amount c)" cs]
    show ?thesis by (simp add: subset_iff)
  next
    case False
    with "3.prems" show ?thesis by simp
  qed
qed simp_all


subsection \<open>The whole operation unfolded\<close>

lemma sum_expenses_known:
  assumes "sum_expenses m tot exps = Inr tot'"
  shows "(\<forall>e \<in> set exps. payer e \<in> dom tot \<and> set (sharedBy e) \<subseteq> dom tot) \<and> dom tot' = dom tot"
proof -
  have k: "\<forall>e \<in> set exps. payer e \<in> dom tot \<and> set (sharedBy e) \<subseteq> dom tot"
  proof (rule ccontr)
    assume "\<not> ?thesis"
    from sum_expenses_Inl[OF this, of m] assms show False by simp
  qed
  from sum_expenses_Inr[OF k, of m] assms show ?thesis using k by auto
qed



lemma calculateAdvanced_Inr:
  assumes "calculateAdvanced m ps items = Inr c"
  shows "ps \<noteq> [] \<and> collect_expenses m items \<noteq> [] \<and>
    (\<exists>tot. sum_expenses m (init_totals ps Map.empty) (collect_expenses m items) = Inr tot \<and>
       dom tot = set ps \<and>
       totals c = map (\<lambda>nm. \<lparr>name = nm, net = rnd m (toFixed2 (raw_net m tot nm))\<rparr>) ps \<and>
       settlement c = settle_rec m (debtors_of m (totals c)) (creditors_of m (totals c)))"
proof -
  from assms have ps: "ps \<noteq> []"
    by (auto simp: calculateAdvanced_def split: if_splits)
  from assms have ex: "collect_expenses m items \<noteq> []"
    by (auto simp: calculateAdvanced_def Let_def split: if_splits)
  from assms ps ex obtain tot nets where
    tot: "sum_expenses m (init_totals ps Map.empty) (collect_expenses m items) = Inr tot"
    and nets: "calc_nets m tot ps = Inr nets"
    and c: "totals c = nets" "settlement c = settle_loop m 0 0 (debtors_of m nets) (creditors_of m nets) []"
    by (auto simp: calculateAdvanced_def Let_def split: if_splits sum.splits)
  from sum_expenses_known[OF tot] have d: "dom tot = set ps"
    by (simp add: dom_init_totals)
  then have "calc_nets m tot ps = Inr (map (\<lambda>nm. \<lparr>name = nm, net = rnd m (toFixed2 (raw_net m tot nm))\<rparr>) ps)"
    by (intro calc_nets_Inr) simp
  with nets have n: "nets = map (\<lambda>nm. \<lparr>name = nm, net = rnd m (toFixed2 (raw_net m tot nm))\<rparr>) ps"
    by simp
  from c have "settlement c = settle_rec m (debtors_of m (totals c)) (creditors_of m (totals c))"
    by (simp add: settle_loop_rec)
  with ps ex tot d c n show ?thesis by blast
qed


subsection \<open>Claims about the net balances and the validation\<close>


lemma scenario_two_friends:
  "calculateAdvanced Exact [''A'', ''B'']
     [\<lparr>item_desc = ''Beer'', item_amount = Some 100, item_payer = ''A'',
       item_sharedBy = [''A'', ''B'']\<rparr>]
   = Inr \<lparr>participants = [''A'', ''B''],
          expenses = [\<lparr>description = ''Beer'', amount = 100, payer = ''A'',
                       sharedBy = [''A'', ''B'']\<rparr>],
          totals = [\<lparr>name = ''A'', net = 50\<rparr>, \<lparr>name = ''B'', net = - 50\<rparr>],
          settlement = [\<lparr>t_from = ''B'', t_to = ''A'', t_amount = 50\<rparr>],
          totalSpent = 100\<rparr>"
  by code_simp







subsection \<open>Claims about the aggregation\<close>






subsection \<open>Claims about the matching loop\<close>





lemma debtors_of_names:
  "nm \<in> party_name ` set (debtors_of m nets) \<Longrightarrow> \<exists>x \<in> set nets. name x = nm \<and> net x < - cent m"
  by (auto simp: debtors_of_def)

lemma creditors_of_names:
  "nm \<in> party_name ` set (creditors_of m nets) \<Longrightarrow> \<exists>x \<in> set nets. name x = nm \<and> cent m < net x"
  by (auto simp: creditors_of_def)

text \<open>
  Claim C7. In either arithmetic, no transfer of a successful calculation has the same
  name as payer and as receiver. (This needs no assumption on the participant names: the entries of a name
  that occurs twice carry the same net, so the name is never both a debtor and a
  creditor.)
\<close>

theorem no_self_transfer:
  assumes "calculateAdvanced m ps items = Inr c"
  shows "\<forall>t \<in> set (settlement c). t_from t \<noteq> t_to t"
proof
  fix t assume t: "t \<in> set (settlement c)"
  from calculateAdvanced_Inr[OF assms] obtain tot where
    n: "totals c = map (\<lambda>nm. \<lparr>name = nm, net = rnd m (toFixed2 (raw_net m tot nm))\<rparr>) ps"
    and s: "settlement c = settle_rec m (debtors_of m (totals c)) (creditors_of m (totals c))"
    by blast
  from t s settle_rec_names
  have "t_from t \<in> party_name ` set (debtors_of m (totals c))"
    and "t_to t \<in> party_name ` set (creditors_of m (totals c))"
    by simp_all
  from debtors_of_names[OF this(1)] creditors_of_names[OF this(2)]
  have "rnd m (toFixed2 (raw_net m tot (t_from t))) < - cent m"
    and "cent m < rnd m (toFixed2 (raw_net m tot (t_to t)))"
    unfolding n by auto
  then show "t_from t \<noteq> t_to t" using cent_pos[of m] by auto
qed

theorem no_self_transfer_witness:
  "calculateAdvanced Exact [''A'', ''B'']
     [\<lparr>item_desc = ''Beer'', item_amount = Some 100, item_payer = ''A'',
       item_sharedBy = [''A'', ''B'']\<rparr>]
   = Inr \<lparr>participants = [''A'', ''B''],
          expenses = [\<lparr>description = ''Beer'', amount = 100, payer = ''A'',
                       sharedBy = [''A'', ''B'']\<rparr>],
          totals = [\<lparr>name = ''A'', net = 50\<rparr>, \<lparr>name = ''B'', net = - 50\<rparr>],
          settlement = [\<lparr>t_from = ''B'', t_to = ''A'', t_amount = 50\<rparr>],
          totalSpent = 100\<rparr>
   \<and> list_all (\<lambda>t. t_from t \<noteq> t_to t) [\<lparr>t_from = ''B'', t_to = ''A'', t_amount = 50\<rparr>]"
proof -
  from no_self_transfer[OF scenario_two_friends]
  have "list_all (\<lambda>t. t_from t \<noteq> t_to t) [\<lparr>t_from = ''B'', t_to = ''A'', t_amount = 50\<rparr>]"
    by (simp add: list_all_iff)
  with scenario_two_friends show ?thesis by (simp only: simp_thms)
qed





subsection \<open>Conservation, in exact arithmetic\<close>













subsection \<open>Applying the transfers, in exact arithmetic\<close>





lemma sum_list_pos_nonempty:
  "xs \<noteq> [] \<Longrightarrow> \<forall>x \<in> set xs. 0 < f x \<Longrightarrow> (0::rat) < sum_list (map f xs)"
proof (induction xs)
  case Nil
  then show ?case by simp
next
  case (Cons a xs)
  show ?case
  proof (cases "xs = []")
    case True
    with Cons.prems show ?thesis by simp
  next
    case False
    from Cons.IH[OF False] Cons.prems have "0 < sum_list (map f xs)" "0 < f a" by simp_all
    then show ?thesis by simp
  qed
qed


















subsection \<open>The order of the expenses\<close>

lemma collect_expenses_map_filter:
  "collect_expenses m items =
     map (\<lambda>it. \<lparr>description = (if item_desc it = [] then ''Expense'' else item_desc it),
                amount = rnd m (the (item_amount it)), payer = item_payer it,
                sharedBy = item_sharedBy it\<rparr>)
       (filter (\<lambda>it. \<not> malformed m it) items)"
  by (induction items) (auto simp: malformed_def split: option.splits)

lemma mset_collect_expenses:
  "mset items' = mset items \<Longrightarrow> mset (collect_expenses m items') = mset (collect_expenses m items)"
  unfolding collect_expenses_map_filter by (simp only: mset_map mset_filter)

lemma sum_list_mset_cong:
  fixes f :: "'a \<Rightarrow> rat"
  shows "mset xs = mset ys \<Longrightarrow> sum_list (map f xs) = sum_list (map f ys)"
  by (metis mset_map sum_mset_sum_list)

lemma add_shares_closed:
  "add_shares Exact s nms tot = Inr tot' \<Longrightarrow>
     tot' nm = map_option (\<lambda>b. b\<lparr>owed := owed b + s * of_nat (count_list nms nm)\<rparr>) (tot nm)"
proof (induction nms arbitrary: tot)
  case Nil
  then show ?case by (cases "tot nm") auto
next
  case (Cons n nms)
  from Cons.prems obtain b where b: "tot n = Some b"
    by (cases "tot n") simp_all
  let ?t = "tot(n \<mapsto> b\<lparr>owed := owed b + s\<rparr>)"
  from Cons.prems b have "add_shares Exact s nms ?t = Inr tot'" by simp
  from Cons.IH[OF this]
  have "tot' nm = map_option (\<lambda>b. b\<lparr>owed := owed b + s * of_nat (count_list nms nm)\<rparr>) (?t nm)" .
  then show ?case using b by (cases "tot nm") (auto simp: algebra_simps)
qed

lemma add_expense_closed:
  assumes "add_expense Exact tot ex = Inr tot'"
  shows "tot' nm =
     map_option
       (\<lambda>b. \<lparr>paid = paid b + (if payer ex = nm then amount ex else 0),
               owed = owed b + amount ex / of_nat (length (sharedBy ex))
                                 * of_nat (count_list (sharedBy ex) nm)\<rparr>)
       (tot nm)"
proof -
  from assms obtain b where b: "tot (payer ex) = Some b"
    by (cases "tot (payer ex)") (simp_all add: add_expense_def Let_def)
  let ?t = "tot(payer ex \<mapsto> b\<lparr>paid := paid b + amount ex\<rparr>)"
  from assms b
  have "add_shares Exact (amount ex / of_nat (length (sharedBy ex))) (sharedBy ex) ?t = Inr tot'"
    by (simp add: add_expense_def Let_def)
  from add_shares_closed[OF this, of nm] b show ?thesis
    by (cases "tot nm") auto
qed

lemma sum_expenses_closed:
  "sum_expenses Exact tot exps = Inr tot' \<Longrightarrow>
     tot' nm =
       map_option
         (\<lambda>b. \<lparr>paid = paid b + (\<Sum>e\<leftarrow>exps. if payer e = nm then amount e else 0),
                 owed = owed b + (\<Sum>e\<leftarrow>exps. amount e / of_nat (length (sharedBy e))
                                              * of_nat (count_list (sharedBy e) nm))\<rparr>)
         (tot nm)"
proof (induction exps arbitrary: tot)
  case Nil
  then show ?case by (cases "tot nm") auto
next
  case (Cons e exps)
  from Cons.prems obtain t where t: "add_expense Exact tot e = Inr t"
    and r: "sum_expenses Exact t exps = Inr tot'"
    by (cases "add_expense Exact tot e") simp_all
  from Cons.IH[OF r] add_expense_closed[OF t, of nm] show ?case
    by (cases "tot nm") (auto simp: algebra_simps)
qed

lemma sum_expenses_permuted:
  assumes "mset exps' = mset exps"
  shows "sum_expenses Exact tot exps' = sum_expenses Exact tot exps"
proof (cases "\<forall>e \<in> set exps. payer e \<in> dom tot \<and> set (sharedBy e) \<subseteq> dom tot")
  case False
  moreover from assms have "set exps' = set exps" by (rule mset_eq_setD)
  ultimately show ?thesis
    using sum_expenses_Inl[of exps tot Exact] sum_expenses_Inl[of exps' tot Exact] by simp
next
  case True
  moreover from assms have s: "set exps' = set exps" by (rule mset_eq_setD)
  ultimately obtain t t' where t: "sum_expenses Exact tot exps = Inr t"
    and t': "sum_expenses Exact tot exps' = Inr t'"
    using sum_expenses_Inr[of exps tot Exact] sum_expenses_Inr[of exps' tot Exact] by auto
  have "t' nm = t nm" for nm
    unfolding sum_expenses_closed[OF t] sum_expenses_closed[OF t']
    by (simp add: sum_list_mset_cong[OF assms])
  then have "t' = t" by (rule ext)
  with t t' show ?thesis by simp
qed

text \<open>
  Claim C4, amended. In exact arithmetic, two lists of expense entries that are
  permutations of each other give every participant the same net (and fail alike).
\<close>

theorem nets_permutation_exact:
  assumes "mset items' = mset items"
  shows "nets_of Exact ps items' = nets_of Exact ps items"
proof -
  from mset_collect_expenses[OF assms]
  have c: "mset (collect_expenses Exact items') = mset (collect_expenses Exact items)" .
  then have e: "collect_expenses Exact items' = [] \<longleftrightarrow> collect_expenses Exact items = []"
    by (metis mset_zero_iff)
  from sum_expenses_permuted[OF c]
  have s: "sum_expenses Exact (init_totals ps Map.empty) (collect_expenses Exact items')
         = sum_expenses Exact (init_totals ps Map.empty) (collect_expenses Exact items)" .
  show ?thesis
    unfolding nets_of_def calculateAdvanced_def Let_def s
    using e by (auto split: sum.splits)
qed

lemma order_one_double:
  "nets_of Double [''A'', ''B'']
     [\<lparr>item_desc = ''Tea'', item_amount = Some (1 / 100), item_payer = ''A'',
       item_sharedBy = [''B'']\<rparr>,
      \<lparr>item_desc = ''Bun'', item_amount = Some (2 / 100), item_payer = ''A'',
       item_sharedBy = [''B'']\<rparr>,
      \<lparr>item_desc = ''Gum'', item_amount = Some (1 / 100), item_payer = ''A'',
       item_sharedBy = [''A'', ''B'']\<rparr>]
   = Some [(''A'', to_double (4 / 100)), (''B'', - to_double (3 / 100))]"
  by (simp add: nets_of_def evaluate)

lemma order_two_double:
  "nets_of Double [''A'', ''B'']
     [\<lparr>item_desc = ''Tea'', item_amount = Some (1 / 100), item_payer = ''A'',
       item_sharedBy = [''B'']\<rparr>,
      \<lparr>item_desc = ''Gum'', item_amount = Some (1 / 100), item_payer = ''A'',
       item_sharedBy = [''A'', ''B'']\<rparr>,
      \<lparr>item_desc = ''Bun'', item_amount = Some (2 / 100), item_payer = ''A'',
       item_sharedBy = [''B'']\<rparr>]
   = Some [(''A'', to_double (4 / 100)), (''B'', - to_double (4 / 100))]"
  by (simp add: nets_of_def evaluate)

text \<open>
  In the code's double arithmetic the order matters. \<open>A\<close> pays 0.01 and 0.02 for \<open>B\<close>
  alone and 0.01 for both: \<open>B\<close> owes 0.01 + 0.02 + 0.005. Added in this order the
  doubles give 0.034999999999999996, which \<^verbatim>\<open>toFixed(2)\<close> turns into 0.03; with the
  last two expenses exchanged they give 0.035000000000000003, hence 0.04.
\<close>

theorem nets_permutation_counterexample:
  "nets_of Double [''A'', ''B'']
     [\<lparr>item_desc = ''Tea'', item_amount = Some (1 / 100), item_payer = ''A'',
       item_sharedBy = [''B'']\<rparr>,
      \<lparr>item_desc = ''Bun'', item_amount = Some (2 / 100), item_payer = ''A'',
       item_sharedBy = [''B'']\<rparr>,
      \<lparr>item_desc = ''Gum'', item_amount = Some (1 / 100), item_payer = ''A'',
       item_sharedBy = [''A'', ''B'']\<rparr>]
   = Some [(''A'', to_double (4 / 100)), (''B'', - to_double (3 / 100))]
   \<and> nets_of Double [''A'', ''B'']
     [\<lparr>item_desc = ''Tea'', item_amount = Some (1 / 100), item_payer = ''A'',
       item_sharedBy = [''B'']\<rparr>,
      \<lparr>item_desc = ''Gum'', item_amount = Some (1 / 100), item_payer = ''A'',
       item_sharedBy = [''A'', ''B'']\<rparr>,
      \<lparr>item_desc = ''Bun'', item_amount = Some (2 / 100), item_payer = ''A'',
       item_sharedBy = [''B'']\<rparr>]
   = Some [(''A'', to_double (4 / 100)), (''B'', - to_double (4 / 100))]
   \<and> to_double (3 / 100) \<noteq> to_double (4 / 100)
   \<and> mset [\<lparr>item_desc = ''Tea'', item_amount = Some (1 / 100), item_payer = ''A'',
       item_sharedBy = [''B'']\<rparr>,
      \<lparr>item_desc = ''Gum'', item_amount = Some (1 / 100), item_payer = ''A'',
       item_sharedBy = [''A'', ''B'']\<rparr>,
      \<lparr>item_desc = ''Bun'', item_amount = Some (2 / 100), item_payer = ''A'',
       item_sharedBy = [''B'']\<rparr>]
     = mset [\<lparr>item_desc = ''Tea'', item_amount = Some (1 / 100), item_payer = ''A'',
       item_sharedBy = [''B'']\<rparr>,
      \<lparr>item_desc = ''Bun'', item_amount = Some (2 / 100), item_payer = ''A'',
       item_sharedBy = [''B'']\<rparr>,
      \<lparr>item_desc = ''Gum'', item_amount = Some (1 / 100), item_payer = ''A'',
       item_sharedBy = [''A'', ''B'']\<rparr>]"
proof -
  have "to_double (3 / 100) \<noteq> to_double (4 / 100)"
    by (simp add: example_roundings)
  moreover have "mset [\<lparr>item_desc = ''Tea'', item_amount = Some (1 / 100), item_payer = ''A'',
       item_sharedBy = [''B'']\<rparr>,
      \<lparr>item_desc = ''Gum'', item_amount = Some (1 / 100), item_payer = ''A'',
       item_sharedBy = [''A'', ''B'']\<rparr>,
      \<lparr>item_desc = ''Bun'', item_amount = Some (2 / 100), item_payer = ''A'',
       item_sharedBy = [''B'']\<rparr>]
     = mset [\<lparr>item_desc = ''Tea'', item_amount = Some (1 / 100), item_payer = ''A'',
       item_sharedBy = [''B'']\<rparr>,
      \<lparr>item_desc = ''Bun'', item_amount = Some (2 / 100), item_payer = ''A'',
       item_sharedBy = [''B'']\<rparr>,
      \<lparr>item_desc = ''Gum'', item_amount = Some (1 / 100), item_payer = ''A'',
       item_sharedBy = [''A'', ''B'']\<rparr>]"
    by (simp add: add_mset_commute)
  ultimately show ?thesis
    using order_one_double order_two_double by (simp only: simp_thms)
qed

theorem nets_permutation_exact_witness:
  "mset [\<lparr>item_desc = ''Tea'', item_amount = Some (1 / 100), item_payer = ''A'',
       item_sharedBy = [''B'']\<rparr>,
      \<lparr>item_desc = ''Gum'', item_amount = Some (1 / 100), item_payer = ''A'',
       item_sharedBy = [''A'', ''B'']\<rparr>,
      \<lparr>item_desc = ''Bun'', item_amount = Some (2 / 100), item_payer = ''A'',
       item_sharedBy = [''B'']\<rparr>]
     = mset [\<lparr>item_desc = ''Tea'', item_amount = Some (1 / 100), item_payer = ''A'',
       item_sharedBy = [''B'']\<rparr>,
      \<lparr>item_desc = ''Bun'', item_amount = Some (2 / 100), item_payer = ''A'',
       item_sharedBy = [''B'']\<rparr>,
      \<lparr>item_desc = ''Gum'', item_amount = Some (1 / 100), item_payer = ''A'',
       item_sharedBy = [''A'', ''B'']\<rparr>]
   \<and> nets_of Exact [''A'', ''B'']
     [\<lparr>item_desc = ''Tea'', item_amount = Some (1 / 100), item_payer = ''A'',
       item_sharedBy = [''B'']\<rparr>,
      \<lparr>item_desc = ''Gum'', item_amount = Some (1 / 100), item_payer = ''A'',
       item_sharedBy = [''A'', ''B'']\<rparr>,
      \<lparr>item_desc = ''Bun'', item_amount = Some (2 / 100), item_payer = ''A'',
       item_sharedBy = [''B'']\<rparr>]
   = nets_of Exact [''A'', ''B'']
     [\<lparr>item_desc = ''Tea'', item_amount = Some (1 / 100), item_payer = ''A'',
       item_sharedBy = [''B'']\<rparr>,
      \<lparr>item_desc = ''Bun'', item_amount = Some (2 / 100), item_payer = ''A'',
       item_sharedBy = [''B'']\<rparr>,
      \<lparr>item_desc = ''Gum'', item_amount = Some (1 / 100), item_payer = ''A'',
       item_sharedBy = [''A'', ''B'']\<rparr>]"
proof -
  have p: "mset [\<lparr>item_desc = ''Tea'', item_amount = Some (1 / 100), item_payer = ''A'',
       item_sharedBy = [''B'']\<rparr>,
      \<lparr>item_desc = ''Gum'', item_amount = Some (1 / 100), item_payer = ''A'',
       item_sharedBy = [''A'', ''B'']\<rparr>,
      \<lparr>item_desc = ''Bun'', item_amount = Some (2 / 100), item_payer = ''A'',
       item_sharedBy = [''B'']\<rparr>]
     = mset [\<lparr>item_desc = ''Tea'', item_amount = Some (1 / 100), item_payer = ''A'',
       item_sharedBy = [''B'']\<rparr>,
      \<lparr>item_desc = ''Bun'', item_amount = Some (2 / 100), item_payer = ''A'',
       item_sharedBy = [''B'']\<rparr>,
      \<lparr>item_desc = ''Gum'', item_amount = Some (1 / 100), item_payer = ''A'',
       item_sharedBy = [''A'', ''B'']\<rparr>]"
    by (simp add: add_mset_commute)
  from nets_permutation_exact[OF p, of "[''A'', ''B'']"] p show ?thesis by (simp only: simp_thms)
qed

end
